theory Spec2Isabelle
  imports Main "HOL-Library.Word"
begin

unbundle bit_operations_syntax

section \<open>Data model of package encryptedstring\<close>

text \<open>
  Go's \<^verbatim>\<open>[]byte\<close> is a list of 8-bit words. A Go \<^verbatim>\<open>string\<close> is an immutable byte
  sequence, modelled as \<^typ>\<open>string\<close> (a list of 8-bit characters); the conversions
  \<^verbatim>\<open>[]byte(s)\<close> and \<^verbatim>\<open>string(b)\<close> copy the bytes unchanged.
\<close>

type_synonym byte = "8 word"
type_synonym bytes = "byte list"

definition bytes_of :: "string \<Rightarrow> bytes" where
  "bytes_of s = map (\<lambda>c. word_of_nat (of_char c)) s"

definition string_of :: "bytes \<Rightarrow> string" where
  "string_of bs = map (\<lambda>w. char_of (unat w)) bs"

text \<open>
  The error values of the package (the \<^verbatim>\<open>var (...)\<close> block), and the errors of the
  libraries it calls that it hands on unchanged: the key size error of
  \<^verbatim>\<open>aes.NewCipher\<close>,
  the one error of the AEAD's \<^verbatim>\<open>Open\<close> ("cipher: message authentication failed"), and
  a failed read from \<^verbatim>\<open>rand.Reader\<close>.
\<close>

datatype error =
    ErrShortCipher
  | ErrVersionMismatch
  | ErrSrcNotBytes
  | ErrNoSuchKey
  | ErrKeyAlreadyExists
  | KeySizeError nat
  | ErrOpen
  | ErrEntropy

text \<open>
  A Go call either returns its result tuple or panics (a run-time error such as an index
  out of range). The second component of a result tuple is the \<^verbatim>\<open>error\<close>, \<open>None\<close>
  for \<^verbatim>\<open>nil\<close>.
\<close>

datatype 'a outcome = Returns 'a | Panics

definition encryptionVersion :: byte where
  "encryptionVersion = 0x00"

definition blockSize :: nat where
  "blockSize = 12"

subsection \<open>The key registry\<close>

text \<open>
  \<^verbatim>\<open>encryptionKeys = make(map[string][]byte)\<close>: a package-level map, passed explicitly.
  Indexing a Go map at an absent key yields the zero value, the nil slice of length 0.
\<close>

type_synonym registry = "string \<rightharpoonup> bytes"

definition lookup :: "registry \<Rightarrow> string \<Rightarrow> bytes" where
  "lookup keys name = (case keys name of None \<Rightarrow> [] | Some k \<Rightarrow> k)"

definition AddKey :: "string \<Rightarrow> bytes \<Rightarrow> registry \<Rightarrow> error option \<times> registry" where
  "AddKey name key keys =
     (case keys name of
        Some _ \<Rightarrow> (Some ErrKeyAlreadyExists, keys)
      | None \<Rightarrow> (None, keys(name \<mapsto> key)))"

subsection \<open>The libraries the package calls\<close>

text \<open>
  The cryptographic primitives are Go's standard library, not code of the package. They are
  parameters of the model: the AEAD (AES in GCM mode) is a pair of functions of key, nonce
  and data, where \<open>gcm_open\<close> yields \<open>None\<close> for the library's single error; the keyed
  digest (HMAC with SHA-512) yields 512 bits.
\<close>

record suite =
  gcm_seal :: "bytes \<Rightarrow> bytes \<Rightarrow> bytes \<Rightarrow> bytes"
  gcm_open :: "bytes \<Rightarrow> bytes \<Rightarrow> bytes \<Rightarrow> bytes option"
  hmac_sha512 :: "bytes \<Rightarrow> bytes \<Rightarrow> 512 word"

text \<open>\<^verbatim>\<open>aes.NewCipher\<close> accepts keys of 16, 24 or 32 bytes and returns a key size
  error otherwise. The keyed block is represented by its key.\<close>

definition valid_key :: "bytes \<Rightarrow> bool" where
  "valid_key key \<longleftrightarrow> length key = 16 \<or> length key = 24 \<or> length key = 32"

definition NewCipher :: "bytes \<Rightarrow> bytes \<times> error option" where
  "NewCipher key = (if valid_key key then (key, None) else ([], Some (KeySizeError (length key))))"

text \<open>\<^verbatim>\<open>io.ReadFull(rand.Reader, buf)\<close>: the entropy source is the list of bytes it will
  deliver; it fills the buffer or fails.\<close>

definition ReadFull :: "bytes \<Rightarrow> nat \<Rightarrow> (bytes \<times> error option) \<times> bytes" where
  "ReadFull rnd n =
     (if length rnd < n then (([], Some ErrEntropy), [])
      else ((take n rnd, None), drop n rnd))"

text \<open>\<^verbatim>\<open>mac.Sum(nil)\<close>: the 64 bytes of the digest, most significant first.\<close>

definition Sum_bytes :: "512 word \<Rightarrow> bytes" where
  "Sum_bytes w = map (\<lambda>i. ucast (drop_bit (8 * (63 - i)) w)) [0..<64]"

text \<open>\<^verbatim>\<open>base64.URLEncoding.EncodeToString\<close>: the URL-safe alphabet, padded with
  \<open>=\<close>.\<close>

definition encodeURL :: string where
  "encodeURL = ''ABCDEFGHIJKLMNOPQRSTUVWXYZabcdefghijklmnopqrstuvwxyz0123456789-_''"

definition sextet :: "byte \<Rightarrow> char" where
  "sextet b = encodeURL ! unat (b AND 0x3F)"

fun EncodeToString :: "bytes \<Rightarrow> string" where
  "EncodeToString [] = []"
| "EncodeToString [a] =
     [sextet (drop_bit 2 a), sextet (push_bit 4 a), CHR ''='', CHR ''='']"
| "EncodeToString [a, b] =
     [sextet (drop_bit 2 a), sextet (push_bit 4 a OR drop_bit 4 b),
      sextet (push_bit 2 b), CHR ''='']"
| "EncodeToString (a # b # c # rest) =
     [sextet (drop_bit 2 a), sextet (push_bit 4 a OR drop_bit 4 b),
      sextet (push_bit 2 b OR drop_bit 6 c), sextet c] @ EncodeToString rest"

section \<open>EncryptedString\<close>

text \<open>
  \<^verbatim>\<open>func (e EncryptedString) Encrypt() ([]byte, error)\<close>. The model takes the suite, the
  registry and the entropy source, and returns the result tuple with the entropy left.
  \<^verbatim>\<open>cipher.NewGCM\<close> cannot fail on an AES block, so its error branch is not reachable.
\<close>

definition Encrypt :: "suite \<Rightarrow> registry \<Rightarrow> bytes \<Rightarrow> string \<Rightarrow> (bytes \<times> error option) \<times> bytes" where
  "Encrypt cs keys rnd e =
     (case NewCipher (lookup keys ''encrypt'') of
        (_, Some err) \<Rightarrow> (([], Some err), rnd)
      | (block, None) \<Rightarrow>
          (let ciphertext = [] @ [encryptionVersion] in
           (case ReadFull rnd blockSize of
              ((_, Some err), rnd') \<Rightarrow> (([], Some err), rnd')
            | ((nonce, None), rnd') \<Rightarrow>
                (let ciphertext = ciphertext @ nonce;
                     cText = gcm_seal cs block nonce (bytes_of e);
                     ciphertext = ciphertext @ cText
                 in ((ciphertext, None), rnd')))))"

text \<open>
  \<^verbatim>\<open>func (e EncryptedString) Decrypt(ciphertext []byte) (string, error)\<close>. The index
  \<^verbatim>\<open>ciphertext[0]\<close> is read before the length is checked, so it panics on an empty slice.
  The line printed on a version mismatch is a side effect on standard output and is left out.
\<close>

definition Decrypt :: "suite \<Rightarrow> registry \<Rightarrow> bytes \<Rightarrow> (string \<times> error option) outcome" where
  "Decrypt cs keys ciphertext =
     (case NewCipher (lookup keys ''encrypt'') of
        (_, Some err) \<Rightarrow> Returns ('''', Some err)
      | (block, None) \<Rightarrow>
          (case ciphertext of
             [] \<Rightarrow> Panics
           | version # _ \<Rightarrow>
               if version \<noteq> encryptionVersion then Returns ('''', Some ErrVersionMismatch)
               else if length ciphertext < blockSize + 1 then Returns ('''', Some ErrShortCipher)
               else
                 (let nonce = take blockSize (drop 1 ciphertext);
                      ciphertext = drop (blockSize + 1) ciphertext
                  in case gcm_open cs block nonce ciphertext of
                       None \<Rightarrow> Returns ('''', Some ErrOpen)
                     | Some plaintext \<Rightarrow> Returns (string_of plaintext, None))))"

text \<open>\<^verbatim>\<open>func (e EncryptedString) Value() (driver.Value, error)\<close>: the value handed to
  the database driver is a byte slice.\<close>

definition Value :: "suite \<Rightarrow> registry \<Rightarrow> bytes \<Rightarrow> string \<Rightarrow> (bytes \<times> error option) \<times> bytes" where
  "Value cs keys rnd e =
     (if e = '''' then (([], None), rnd)
      else
        (case Encrypt cs keys rnd e of
           ((_, Some err), rnd') \<Rightarrow> (([], Some err), rnd')
         | ((val, None), rnd') \<Rightarrow> ((val, None), rnd')))"

text \<open>
  \<^verbatim>\<open>func (e *EncryptedString) Scan(src interface{}) error\<close>. The dynamic type of
  \<open>src\<close> is one of the driver's value types. The result is the returned error together
  with the string the receiver points to afterwards.
\<close>

datatype src_value =
    SrcBytes bytes
  | SrcString string
  | SrcInt64 int
  | SrcBool bool
  | SrcNil

definition Scan :: "suite \<Rightarrow> registry \<Rightarrow> string \<Rightarrow> src_value \<Rightarrow> (error option \<times> string) outcome" where
  "Scan cs keys e src =
     (case src of
        SrcBytes v \<Rightarrow>
          if length v = 0 then Returns (None, '''')
          else
            (case Decrypt cs keys v of
               Panics \<Rightarrow> Panics
             | Returns (_, Some err) \<Rightarrow> Returns (Some err, e)
             | Returns (val, None) \<Rightarrow> Returns (None, val))
      | _ \<Rightarrow> Returns (Some ErrSrcNotBytes, e))"

section \<open>BlindIndexHash\<close>

text \<open>\<^verbatim>\<open>func (b BlindIndexHash) GetHash() ([]byte, error)\<close>. Writing to a hash never
  returns an error, so the error branch after \<^verbatim>\<open>mac.Write\<close> is not reachable.\<close>

definition GetHash :: "suite \<Rightarrow> registry \<Rightarrow> string \<Rightarrow> bytes \<times> error option" where
  "GetHash cs keys b =
     (Sum_bytes (hmac_sha512 cs (lookup keys ''blindIndex'') (bytes_of b)), None)"

definition GetBase64 :: "suite \<Rightarrow> registry \<Rightarrow> string \<Rightarrow> string \<times> error option" where
  "GetBase64 cs keys b =
     (case GetHash cs keys b of
        (_, Some err) \<Rightarrow> ('''', Some err)
      | (byts, None) \<Rightarrow> (EncodeToString byts, None))"

text \<open>\<^verbatim>\<open>func (b BlindIndexHash) Value() (driver.Value, error)\<close>: the value handed to
  the database driver is a string.\<close>

definition BlindIndexHash_Value :: "suite \<Rightarrow> registry \<Rightarrow> string \<Rightarrow> string \<times> error option" where
  "BlindIndexHash_Value cs keys b =
     (if b = '''' then ('''', None)
      else
        (case GetBase64 cs keys b of
           (_, Some err) \<Rightarrow> ('''', Some err)
         | (val, None) \<Rightarrow> (val, None)))"

section \<open>Contracts of the AEAD\<close>

text \<open>What the package relies on: opening what was sealed under the same key and nonce
  gives the plaintext back.\<close>

definition aead_correct :: "suite \<Rightarrow> bool" where
  "aead_correct cs \<longleftrightarrow>
     (\<forall>key nonce pt. valid_key key \<longrightarrow> length nonce = blockSize \<longrightarrow>
        gcm_open cs key nonce (gcm_seal cs key nonce pt) = Some pt)"

text \<open>Bit \<open>i\<close> of a byte sequence, counted through the bytes in order, inverted.\<close>

definition flip_bit_at :: "nat \<Rightarrow> bytes \<Rightarrow> bytes" where
  "flip_bit_at i bs = bs[i div 8 := flip_bit (i mod 8) (bs ! (i div 8))]"

text \<open>Sealed data with one bit inverted does not open under the same key and nonce.\<close>

definition aead_rejects_bit_flips :: "suite \<Rightarrow> bool" where
  "aead_rejects_bit_flips cs \<longleftrightarrow>
     (\<forall>key nonce pt i. valid_key key \<longrightarrow> length nonce = blockSize \<longrightarrow>
        i < 8 * length (gcm_seal cs key nonce pt) \<longrightarrow>
        gcm_open cs key nonce (flip_bit_at i (gcm_seal cs key nonce pt)) = None)"

section \<open>A concrete suite and the test fixture\<close>

text \<open>
  A small suite with the shape of the real one (sealed data is the enciphered text followed
  by a 16-byte tag; the digest has 512 bits), on which the parametric results are
  instantiated and run. It stands in for the library only at concrete inputs.
\<close>

definition xor_pad :: "bytes \<Rightarrow> bytes \<Rightarrow> byte" where
  "xor_pad key nonce = foldr (XOR) (key @ nonce) 0"

definition xor_tag :: "bytes \<Rightarrow> bytes \<Rightarrow> bytes \<Rightarrow> bytes" where
  "xor_tag key nonce ct = foldr (XOR) ct (xor_pad key nonce) # replicate 15 0"

definition xor_seal :: "bytes \<Rightarrow> bytes \<Rightarrow> bytes \<Rightarrow> bytes" where
  "xor_seal key nonce pt =
     (let ct = map (\<lambda>b. b XOR xor_pad key nonce) pt in ct @ xor_tag key nonce ct)"

definition xor_open :: "bytes \<Rightarrow> bytes \<Rightarrow> bytes \<Rightarrow> bytes option" where
  "xor_open key nonce sealed =
     (if length sealed < 16 then None
      else
        (let ct = take (length sealed - 16) sealed;
             tag = drop (length sealed - 16) sealed
         in if tag \<noteq> xor_tag key nonce ct then None
            else Some (map (\<lambda>b. b XOR xor_pad key nonce) ct)))"

definition sum_mac :: "bytes \<Rightarrow> bytes \<Rightarrow> 512 word" where
  "sum_mac key msg = word_of_nat (foldr (\<lambda>b n. unat b + 257 * n) (key @ msg) 1)"

definition demo_suite :: suite where
  "demo_suite = \<lparr>gcm_seal = xor_seal, gcm_open = xor_open, hmac_sha512 = sum_mac\<rparr>"

text \<open>The key of the package's tests (\<^verbatim>\<open>init\<close> of the test file), and 16 bytes of
  entropy.\<close>

definition test_key :: bytes where
  "test_key = bytes_of ''Y53DIiG6XX7eguA0SOzK7p6EPV7wfRNe''"

definition test_keys :: registry where
  "test_keys = snd (AddKey ''encrypt'' test_key Map.empty)"

definition test_rnd :: bytes where
  "test_rnd = [0x10, 0x32, 0x54, 0x76, 0x98, 0xBA, 0xDC, 0xFE, 1, 2, 3, 4, 5, 6, 7, 8]"

section \<open>Basic facts\<close>

subsection \<open>Conversions, registry and libraries\<close>

lemma string_of_bytes_of: "string_of (bytes_of s) = s"
proof -
  have "char_of (unat (word_of_nat (of_char c) :: byte)) = c" for c
    by (simp add: unat_of_nat)
  then show ?thesis
    by (simp add: string_of_def bytes_of_def map_idI)
qed

lemma lookup_Some: "keys name = Some k \<Longrightarrow> lookup keys name = k"
  by (simp add: lookup_def)

lemma NewCipher_valid: "valid_key key \<Longrightarrow> NewCipher key = (key, None)"
  by (simp add: NewCipher_def)

lemma length_Sum_bytes: "length (Sum_bytes w) = 64"
  by (simp add: Sum_bytes_def)

lemma length_EncodeToString: "length (EncodeToString bs) = 4 * ((length bs + 2) div 3)"
proof (induction bs rule: EncodeToString.induct)
  case (4 a b c rest)
  have "(length (a # b # c # rest) + 2) div 3 = Suc ((length rest + 2) div 3)"
    by simp
  with 4 show ?case by simp
qed simp_all

subsection \<open>The ciphertext layout: version, nonce, sealed data\<close>

lemma Encrypt_valid:
  assumes "valid_key (lookup keys ''encrypt'')" and "blockSize \<le> length rnd"
  shows "Encrypt cs keys rnd e =
    ((encryptionVersion # take blockSize rnd @
        gcm_seal cs (lookup keys ''encrypt'') (take blockSize rnd) (bytes_of e), None),
     drop blockSize rnd)"
  using assms by (simp add: Encrypt_def NewCipher_valid ReadFull_def)

lemma Encrypt_success:
  assumes "Encrypt cs keys rnd e = ((ct, None), rnd')"
  shows "valid_key (lookup keys ''encrypt'')" and "blockSize \<le> length rnd"
    and "ct = encryptionVersion # take blockSize rnd @
           gcm_seal cs (lookup keys ''encrypt'') (take blockSize rnd) (bytes_of e)"
    and "rnd' = drop blockSize rnd"
  using assms
  by (auto simp: Encrypt_def NewCipher_def ReadFull_def split: if_splits)

lemma Decrypt_framed:
  assumes "valid_key (lookup keys ''encrypt'')" and "length nonce = blockSize"
  shows "Decrypt cs keys (encryptionVersion # nonce @ sealed) =
    (case gcm_open cs (lookup keys ''encrypt'') nonce sealed of
       None \<Rightarrow> Returns ('''', Some ErrOpen)
     | Some plaintext \<Rightarrow> Returns (string_of plaintext, None))"
  using assms by (simp add: Decrypt_def NewCipher_valid)

lemma Decrypt_short:
  assumes "valid_key (lookup keys ''encrypt'')" and "ct \<noteq> []" and "hd ct = encryptionVersion"
    and "length ct < blockSize + 1"
  shows "Decrypt cs keys ct = Returns ('''', Some ErrShortCipher)"
  using assms by (cases ct) (simp_all add: Decrypt_def NewCipher_valid)

lemma Decrypt_empty:
  assumes "valid_key (lookup keys ''encrypt'')"
  shows "Decrypt cs keys [] = Panics"
  using assms by (simp add: Decrypt_def NewCipher_valid)

lemma Decrypt_version:
  assumes "valid_key (lookup keys ''encrypt'')" and "v \<noteq> encryptionVersion"
  shows "Decrypt cs keys (v # rest) = Returns ('''', Some ErrVersionMismatch)"
  using assms by (simp add: Decrypt_def NewCipher_valid)

lemma Decrypt_nonempty: "v \<noteq> [] \<Longrightarrow> Decrypt cs keys v \<noteq> Panics"
  by (cases v) (simp_all add: Decrypt_def Let_def split: prod.splits option.splits)

text \<open>A ciphertext cut to between 1 and 12 bytes keeps its version byte and is refused as
  too short.\<close>

lemma Decrypt_truncated:
  assumes "Encrypt cs keys rnd e = ((ct, None), rnd')" and "0 < n" and "n < blockSize + 1"
  shows "Decrypt cs keys (take n ct) = Returns ('''', Some ErrShortCipher)"
proof -
  note s = Encrypt_success [OF assms(1)]
  from assms(2) obtain m where n: "n = Suc m" by (cases n) auto
  from s(3) n have "take n ct \<noteq> []" "hd (take n ct) = encryptionVersion"
    by simp_all
  moreover from assms(3) have "length (take n ct) < blockSize + 1" by simp
  ultimately show ?thesis using s(1) by (rule_tac Decrypt_short)
qed

lemma flip_bit_at_framed:
  assumes "length nonce = blockSize" and "8 * (blockSize + 1) \<le> i"
  shows "flip_bit_at i (v # nonce @ sealed) =
    v # nonce @ flip_bit_at (i - 8 * (blockSize + 1)) sealed"
proof -
  from assms(2) obtain r where i: "i = 8 * (blockSize + 1) + r"
    using le_Suc_ex by blast
  have "i div 8 = blockSize + 1 + r div 8"
    unfolding i by (rule div_mult_self4) simp
  then have d: "i div 8 = Suc (length nonce + r div 8)"
    by (simp add: assms(1))
  have m: "i mod 8 = r mod 8"
    unfolding i by (rule mod_mult_self4)
  have r: "i - 8 * (blockSize + 1) = r"
    unfolding i by (rule add_diff_cancel_left')
  show ?thesis
    unfolding flip_bit_at_def r d m
    by (simp add: list_update_append nth_append)
qed

subsection \<open>The concrete suite meets the contracts\<close>

lemma test_keys_encrypt: "test_keys ''encrypt'' = Some test_key"
  by (simp add: test_keys_def AddKey_def)

lemma valid_test_key: "valid_key test_key"
  by (simp add: valid_key_def test_key_def bytes_of_def)

lemma valid_test_keys: "valid_key (lookup test_keys ''encrypt'')"
  using lookup_Some [of test_keys "''encrypt''" test_key]
  by (simp add: test_keys_encrypt valid_test_key)

lemma test_rnd_enough: "blockSize \<le> length test_rnd"
  by (simp add: blockSize_def test_rnd_def)

lemma length_xor_tag: "length (xor_tag key nonce ct) = 16"
  by (simp add: xor_tag_def)

lemma length_xor_seal: "length (xor_seal key nonce pt) = length pt + 16"
  by (simp add: xor_seal_def Let_def length_xor_tag)

lemma xor_open_append:
  assumes "length tag = 16"
  shows "xor_open key nonce (ct @ tag) =
    (if tag \<noteq> xor_tag key nonce ct then None
     else Some (map (\<lambda>b. b XOR xor_pad key nonce) ct))"
  using assms by (simp add: xor_open_def)

lemma xor_pad_twice: "map (\<lambda>b. b XOR p) (map (\<lambda>b. b XOR p) pt) = (pt :: bytes)"
  by (induction pt) (simp_all add: xor.assoc)

lemma xor_open_seal: "xor_open key nonce (xor_seal key nonce pt) = Some pt"
proof -
  have "xor_seal key nonce pt =
      map (\<lambda>b. b XOR xor_pad key nonce) pt @
      xor_tag key nonce (map (\<lambda>b. b XOR xor_pad key nonce) pt)"
    by (simp add: xor_seal_def Let_def)
  then show ?thesis
    by (simp only: xor_open_append [OF length_xor_tag] xor_pad_twice if_False simp_thms)
qed

lemma demo_suite_correct: "aead_correct demo_suite"
  by (simp add: aead_correct_def demo_suite_def xor_open_seal)

lemma foldr_xor_update:
  "j < length xs \<Longrightarrow> foldr (XOR) (xs[j := xs ! j XOR m]) (a :: byte) = foldr (XOR) xs a XOR m"
proof (induction xs arbitrary: j)
  case Nil
  then show ?case by simp
next
  case (Cons x xs)
  show ?case
  proof (cases j)
    case 0
    then show ?thesis by (simp add: ac_simps)
  next
    case (Suc k)
    with Cons show ?thesis by (simp add: ac_simps)
  qed
qed

lemma flip_bit_differs: "m < 8 \<Longrightarrow> flip_bit m (b :: byte) \<noteq> b"
  by (simp add: flip_bit_eq_idem_iff)

lemma xor_tag_flip:
  assumes "j < length ct" and "m < 8"
  shows "xor_tag key nonce (ct[j := flip_bit m (ct ! j)]) \<noteq> xor_tag key nonce ct"
proof -
  have "foldr (XOR) (ct[j := ct ! j XOR push_bit m 1]) (xor_pad key nonce)
      = foldr (XOR) ct (xor_pad key nonce) XOR push_bit m 1"
    using assms(1) by (rule foldr_xor_update)
  moreover have "foldr (XOR) ct (xor_pad key nonce) XOR push_bit m 1
      \<noteq> foldr (XOR) ct (xor_pad key nonce)"
    using flip_bit_differs [OF assms(2), of "foldr (XOR) ct (xor_pad key nonce)"]
    by (simp add: flip_bit_def)
  ultimately show ?thesis
    by (simp add: xor_tag_def flip_bit_def)
qed

lemma xor_open_flipped:
  assumes "i < 8 * length (xor_seal key nonce pt)"
  shows "xor_open key nonce (flip_bit_at i (xor_seal key nonce pt)) = None"
proof -
  define ct where "ct = map (\<lambda>b. b XOR xor_pad key nonce) pt"
  define tag where "tag = xor_tag key nonce ct"
  have sealed: "xor_seal key nonce pt = ct @ tag"
    by (simp add: xor_seal_def ct_def tag_def Let_def)
  have lt: "length tag = 16" by (simp add: tag_def length_xor_tag)
  let ?j = "i div 8" and ?m = "i mod 8"
  have m: "?m < 8" by simp
  from assms have j: "?j < length ct + 16" by (simp add: sealed lt)
  show ?thesis
  proof (cases "?j < length ct")
    case True
    then have "flip_bit_at i (ct @ tag) = ct[?j := flip_bit ?m (ct ! ?j)] @ tag"
      by (simp add: flip_bit_at_def list_update_append nth_append)
    moreover have "tag \<noteq> xor_tag key nonce (ct[?j := flip_bit ?m (ct ! ?j)])"
      using xor_tag_flip [OF True m, of key nonce] by (simp add: tag_def)
    ultimately show ?thesis
      by (simp add: sealed xor_open_append lt)
  next
    case False
    let ?k = "?j - length ct"
    from False j have k: "?k < length tag" by (simp add: lt)
    from False have "flip_bit_at i (ct @ tag) = ct @ tag[?k := flip_bit ?m (tag ! ?k)]"
      by (simp add: flip_bit_at_def list_update_append nth_append)
    moreover have "tag[?k := flip_bit ?m (tag ! ?k)] \<noteq> tag"
    proof
      assume "tag[?k := flip_bit ?m (tag ! ?k)] = tag"
      then have "tag[?k := flip_bit ?m (tag ! ?k)] ! ?k = tag ! ?k" by simp
      with k have "flip_bit ?m (tag ! ?k) = tag ! ?k" by simp
      with flip_bit_differs [OF m] show False by blast
    qed
    ultimately show ?thesis
      by (simp add: sealed xor_open_append lt tag_def [symmetric])
  qed
qed

lemma demo_suite_rejects_bit_flips: "aead_rejects_bit_flips demo_suite"
  by (simp add: aead_rejects_bit_flips_def demo_suite_def xor_open_flipped)

lemma Encrypt_demo:
  "Encrypt demo_suite test_keys test_rnd e =
    ((encryptionVersion # take blockSize test_rnd @
        xor_seal (lookup test_keys ''encrypt'') (take blockSize test_rnd) (bytes_of e), None),
     drop blockSize test_rnd)"
  using Encrypt_valid [OF valid_test_keys test_rnd_enough, of demo_suite e]
  by (simp add: demo_suite_def)

section \<open>Round trip\<close>

text \<open>
  C1. With a valid AES key registered under the name "encrypt", an entropy source that
  delivers the 12 bytes of the nonce, and an AEAD that opens what it sealed, \<open>Encrypt\<close>
  succeeds on every plaintext \<open>P\<close> (the empty one and long ones included) and \<open>Decrypt\<close>
  of its result returns \<open>P\<close> with no error.
\<close>

theorem Decrypt_Encrypt:
  assumes "aead_correct cs" and "keys ''encrypt'' = Some key" and "valid_key key"
    and "blockSize \<le> length rnd"
  shows "\<exists>ct rnd'. Encrypt cs keys rnd P = ((ct, None), rnd') \<and>
           Decrypt cs keys ct = Returns (P, None)"
proof -
  let ?nonce = "take blockSize rnd"
  from assms(2,3) have k: "lookup keys ''encrypt'' = key" "valid_key (lookup keys ''encrypt'')"
    by (simp_all add: lookup_Some)
  from assms(4) have n: "length ?nonce = blockSize" by simp
  from assms(1,3) n
  have "gcm_open cs key ?nonce (gcm_seal cs key ?nonce (bytes_of P)) = Some (bytes_of P)"
    by (simp add: aead_correct_def)
  then have "Decrypt cs keys (encryptionVersion # ?nonce @ gcm_seal cs key ?nonce (bytes_of P))
      = Returns (P, None)"
    using Decrypt_framed [OF k(2) n, of cs] k(1) by (simp add: string_of_bytes_of)
  moreover have "Encrypt cs keys rnd P =
      ((encryptionVersion # ?nonce @ gcm_seal cs key ?nonce (bytes_of P), None),
       drop blockSize rnd)"
    using Encrypt_valid [OF k(2) assms(4), of cs P] k(1) by simp
  ultimately show ?thesis by blast
qed

text \<open>The round trip on the plaintext "Hello World" with the key of the package's tests.\<close>

theorem Decrypt_Encrypt_witness:
  "aead_correct demo_suite \<and> test_keys ''encrypt'' = Some test_key \<and> valid_key test_key \<and>
   blockSize \<le> length test_rnd \<and>
   Decrypt demo_suite test_keys
     (fst (fst (Encrypt demo_suite test_keys test_rnd ''Hello World'')))
     = Returns (''Hello World'', None)"
proof -
  from Decrypt_Encrypt [of demo_suite test_keys test_key test_rnd "''Hello World''"]
    demo_suite_correct test_keys_encrypt valid_test_key test_rnd_enough
  obtain ct rnd' where "Encrypt demo_suite test_keys test_rnd ''Hello World'' = ((ct, None), rnd')"
    and "Decrypt demo_suite test_keys ct = Returns (''Hello World'', None)"
    by blast
  then show ?thesis
    by (simp add: demo_suite_correct test_keys_encrypt valid_test_key test_rnd_enough)
qed

section \<open>Empty plaintext and empty ciphertext\<close>

text \<open>
  C2, as the code has it. The empty-plaintext case lives in \<open>Value\<close>: it returns a
  zero-length byte sequence and no error, whatever the suite and the registry are, and leaves
  the entropy source as it was. \<open>Encrypt\<close> itself has no such case: when it succeeds on the
  empty plaintext, its result is the version byte, the 12 bytes of the nonce taken from the
  entropy source, and the data sealed for the empty message.
\<close>

theorem Value_empty:
  "Value cs keys rnd '''' = (([], None), rnd) \<and>
   (Encrypt cs keys rnd '''' = ((ct, None), rnd') \<longrightarrow>
      blockSize \<le> length rnd \<and> rnd' = drop blockSize rnd \<and>
      ct = encryptionVersion # take blockSize rnd @
             gcm_seal cs (lookup keys ''encrypt'') (take blockSize rnd) [])"
proof -
  have "Value cs keys rnd '''' = (([], None), rnd)"
    by (simp add: Value_def)
  moreover have "blockSize \<le> length rnd \<and> rnd' = drop blockSize rnd \<and>
      ct = encryptionVersion # take blockSize rnd @
             gcm_seal cs (lookup keys ''encrypt'') (take blockSize rnd) []"
    if "Encrypt cs keys rnd '''' = ((ct, None), rnd')"
    using Encrypt_success [OF that] by (simp add: bytes_of_def)
  ultimately show ?thesis by blast
qed

theorem Value_empty_witness:
  "Value demo_suite test_keys test_rnd '''' = (([], None), test_rnd) \<and>
   Encrypt demo_suite test_keys test_rnd '''' =
     ((encryptionVersion # take blockSize test_rnd @
         gcm_seal demo_suite (lookup test_keys ''encrypt'') (take blockSize test_rnd) [], None),
      drop blockSize test_rnd) \<and>
   blockSize \<le> length test_rnd"
  using Value_empty [of demo_suite test_keys test_rnd
      "encryptionVersion # take blockSize test_rnd @
         gcm_seal demo_suite (lookup test_keys ''encrypt'') (take blockSize test_rnd) []"
      "drop blockSize test_rnd"]
    Encrypt_demo [of "''''"]
  by (simp add: demo_suite_def bytes_of_def)

text \<open>\<open>Encrypt\<close> on the empty plaintext, with the test key: 29 bytes, not none, and 12
  bytes of entropy are gone.\<close>

theorem Encrypt_empty_counterexample:
  "fst (Encrypt demo_suite test_keys test_rnd '''') \<noteq> ([], None) \<and>
   length (fst (fst (Encrypt demo_suite test_keys test_rnd ''''))) = 29 \<and>
   snd (Encrypt demo_suite test_keys test_rnd '''') \<noteq> test_rnd"
  unfolding Encrypt_demo
  by (simp add: length_xor_seal bytes_of_def blockSize_def test_rnd_def)

text \<open>
  C3, as the code has it. The empty-ciphertext case lives in \<open>Scan\<close>: given a zero-length
  byte slice it sets the receiver to the empty string and returns no error, without calling
  \<open>Decrypt\<close>.
\<close>

theorem Scan_empty: "Scan cs keys e (SrcBytes []) = Returns (None, '''')"
  by (simp add: Scan_def)

text \<open>\<open>Decrypt\<close> itself, given the empty ciphertext under a valid key, does not return the
  empty plaintext: it reads \<^verbatim>\<open>ciphertext[0]\<close> and panics.\<close>

theorem Decrypt_empty_counterexample:
  "Decrypt demo_suite test_keys [] = Panics \<and>
   Decrypt demo_suite test_keys [] \<noteq> Returns ('''', None)"
  by (simp add: Decrypt_empty [OF valid_test_keys])

section \<open>Malformed ciphertexts\<close>

text \<open>
  C4 at the length 0. A ciphertext produced by \<open>Encrypt\<close> and cut to no bytes at all is
  not refused with \<open>ErrShortCipher\<close>: \<open>Decrypt\<close> panics on it, because the version byte
  is read before the length is checked.
\<close>

theorem Decrypt_truncated_to_nothing:
  "Decrypt demo_suite test_keys
     (take 0 (fst (fst (Encrypt demo_suite test_keys test_rnd ''Hello World'')))) = Panics"
  by (simp add: Decrypt_empty [OF valid_test_keys])

text \<open>
  C5. For every ciphertext produced by \<open>Encrypt\<close>, replacing byte 0 by any value other than
  the supported version makes \<open>Decrypt\<close> fail with \<open>ErrVersionMismatch\<close>.
\<close>

theorem Decrypt_wrong_version:
  assumes "Encrypt cs keys rnd e = ((ct, None), rnd')" and "v \<noteq> encryptionVersion"
  shows "Decrypt cs keys (ct[0 := v]) = Returns ('''', Some ErrVersionMismatch)"
proof -
  note s = Encrypt_success [OF assms(1)]
  from s(3) obtain rest where "ct[0 := v] = v # rest" by simp
  with Decrypt_version [OF s(1) assms(2)] show ?thesis by simp
qed

theorem Decrypt_wrong_version_witness:
  "Encrypt demo_suite test_keys test_rnd ''Hello World'' =
     ((fst (fst (Encrypt demo_suite test_keys test_rnd ''Hello World'')), None),
      drop blockSize test_rnd) \<and>
   (1 :: byte) \<noteq> encryptionVersion \<and>
   Decrypt demo_suite test_keys
     ((fst (fst (Encrypt demo_suite test_keys test_rnd ''Hello World'')))[0 := 1])
     = Returns ('''', Some ErrVersionMismatch)"
proof -
  have e: "Encrypt demo_suite test_keys test_rnd ''Hello World'' =
     ((fst (fst (Encrypt demo_suite test_keys test_rnd ''Hello World'')), None),
      drop blockSize test_rnd)"
    by (simp add: Encrypt_demo)
  have v: "(1 :: byte) \<noteq> encryptionVersion"
    by (simp add: encryptionVersion_def)
  from Decrypt_wrong_version [OF e v] e v show ?thesis by blast
qed

text \<open>
  C6. Provided the AEAD refuses sealed data with one bit inverted: for every ciphertext
  produced by \<open>Encrypt\<close>, inverting any single bit of the sealed-data region (bytes 13 to the
  end) makes \<open>Decrypt\<close> fail with the AEAD's authentication error. That error is the only
  one \<open>Decrypt\<close> returns for a ciphertext with the supported version byte and a full nonce:
  whatever made the AEAD refuse it, the caller sees the same error and no plaintext.
\<close>

theorem Decrypt_rejects_tampering:
  assumes "aead_rejects_bit_flips cs" and "Encrypt cs keys rnd P = ((ct, None), rnd')"
    and "8 * (blockSize + 1) \<le> i" and "i < 8 * length ct"
  shows "Decrypt cs keys (flip_bit_at i ct) = Returns ('''', Some ErrOpen) \<and>
    (\<forall>rest s err. blockSize \<le> length rest \<longrightarrow>
       Decrypt cs keys (encryptionVersion # rest) = Returns (s, Some err) \<longrightarrow>
       s = '''' \<and> err = ErrOpen)"
proof
  note s = Encrypt_success [OF assms(2)]
  let ?key = "lookup keys ''encrypt''" and ?nonce = "take blockSize rnd"
  let ?sealed = "gcm_seal cs ?key ?nonce (bytes_of P)"
  let ?i = "i - 8 * (blockSize + 1)"
  from s(2) have n: "length ?nonce = blockSize" by simp
  from assms(3,4) s(3) n have "?i < 8 * length ?sealed" by simp
  with assms(1) s(1) n have "gcm_open cs ?key ?nonce (flip_bit_at ?i ?sealed) = None"
    by (simp add: aead_rejects_bit_flips_def)
  moreover have "flip_bit_at i ct = encryptionVersion # ?nonce @ flip_bit_at ?i ?sealed"
    unfolding s(3) using n assms(3) by (rule flip_bit_at_framed)
  ultimately show "Decrypt cs keys (flip_bit_at i ct) = Returns ('''', Some ErrOpen)"
    using Decrypt_framed [OF s(1) n, of cs "flip_bit_at ?i ?sealed"] by simp
  show "\<forall>rest s err. blockSize \<le> length rest \<longrightarrow>
       Decrypt cs keys (encryptionVersion # rest) = Returns (s, Some err) \<longrightarrow>
       s = '''' \<and> err = ErrOpen"
    using s(1) by (auto simp: Decrypt_def NewCipher_valid Let_def split: option.splits)
qed

text \<open>A bit of the first sealed byte and a bit of the last byte of the tag, inverted in the
  ciphertext of "Hello World".\<close>

theorem Decrypt_rejects_tampering_witness:
  "aead_rejects_bit_flips demo_suite \<and>
   Decrypt demo_suite test_keys
     (flip_bit_at 107 (fst (fst (Encrypt demo_suite test_keys test_rnd ''Hello World''))))
     = Returns ('''', Some ErrOpen) \<and>
   Decrypt demo_suite test_keys
     (flip_bit_at 319 (fst (fst (Encrypt demo_suite test_keys test_rnd ''Hello World''))))
     = Returns ('''', Some ErrOpen)"
proof -
  let ?ct = "fst (fst (Encrypt demo_suite test_keys test_rnd ''Hello World''))"
  have e: "Encrypt demo_suite test_keys test_rnd ''Hello World'' =
     ((?ct, None), drop blockSize test_rnd)"
    by (simp add: Encrypt_demo)
  have l: "length ?ct = 40"
    unfolding Encrypt_demo
    by (simp add: length_xor_seal bytes_of_def blockSize_def test_rnd_def)
  have "8 * (blockSize + 1) \<le> 107" "107 < 8 * length ?ct"
    "8 * (blockSize + 1) \<le> 319" "319 < 8 * length ?ct"
    by (simp_all add: l blockSize_def)
  with Decrypt_rejects_tampering [OF demo_suite_rejects_bit_flips e, of 107]
    Decrypt_rejects_tampering [OF demo_suite_rejects_bit_flips e, of 319]
    demo_suite_rejects_bit_flips
  show ?thesis by blast
qed

section \<open>The key registry\<close>

text \<open>
  C7. For every name already in the registry, \<open>AddKey\<close> with that name returns
  \<open>ErrKeyAlreadyExists\<close> and leaves the registry unchanged: the name still maps to the key
  registered first.
\<close>

theorem AddKey_existing:
  assumes "keys name = Some k"
  shows "AddKey name key keys = (Some ErrKeyAlreadyExists, keys) \<and>
    snd (AddKey name key keys) name = Some k"
  using assms by (simp add: AddKey_def)

theorem AddKey_existing_witness:
  "test_keys ''encrypt'' = Some test_key \<and>
   AddKey ''encrypt'' [1, 2, 3] test_keys = (Some ErrKeyAlreadyExists, test_keys) \<and>
   snd (AddKey ''encrypt'' [1, 2, 3] test_keys) ''encrypt'' = Some test_key"
  using AddKey_existing [of test_keys "''encrypt''" test_key "[1, 2, 3]"] test_keys_encrypt
  by simp

lemma AddKey_twice:
  "AddKey name key' (snd (AddKey name key keys)) =
     (Some ErrKeyAlreadyExists, snd (AddKey name key keys))"
  by (simp add: AddKey_def split: option.splits)

text \<open>
  C8 on a registry without the key. No call returns \<open>ErrNoSuchKey\<close>: the lookup yields
  the empty key, with which \<open>GetHash\<close> succeeds and returns the digest under the empty key,
  while \<open>Encrypt\<close> and \<open>Decrypt\<close> return the key size error of the cipher construction.
\<close>

theorem unregistered_key:
  "GetHash cs (keys(''blindIndex'' := None)) b =
     (Sum_bytes (hmac_sha512 cs [] (bytes_of b)), None) \<and>
   fst (Encrypt cs (keys(''encrypt'' := None)) rnd e) = ([], Some (KeySizeError 0)) \<and>
   Decrypt cs (keys(''encrypt'' := None)) ct = Returns ('''', Some (KeySizeError 0))"
  by (simp add: GetHash_def Encrypt_def Decrypt_def lookup_def NewCipher_def valid_key_def)

section \<open>The blind index\<close>

lemma GetBase64_length: "length (fst (GetBase64 cs keys b)) = 88 \<and> snd (GetBase64 cs keys b) = None"
  by (simp add: GetBase64_def GetHash_def length_EncodeToString length_Sum_bytes)

text \<open>
  C9, as the code has it. The empty-input case lives in \<open>BlindIndexHash_Value\<close>: it returns
  the empty string and no error without computing a digest, and this differs from its result
  on every non-empty input, which is the 88 characters of an encoded 64-byte digest.
  \<open>GetHash\<close> and \<open>GetBase64\<close> have no such case.
\<close>

theorem BlindIndexHash_Value_empty:
  "BlindIndexHash_Value cs keys '''' = ('''', None) \<and>
   (b \<noteq> '''' \<longrightarrow>
      length (fst (BlindIndexHash_Value cs keys b)) = 88 \<and>
      BlindIndexHash_Value cs keys b \<noteq> BlindIndexHash_Value cs keys '''')"
proof -
  have e: "BlindIndexHash_Value cs keys '''' = ('''', None)"
    by (simp add: BlindIndexHash_Value_def)
  have "length (fst (BlindIndexHash_Value cs keys b)) = 88" if "b \<noteq> ''''"
  proof -
    obtain val where "GetBase64 cs keys b = (val, None)" and "length val = 88"
      using GetBase64_length [of cs keys b] by (cases "GetBase64 cs keys b") simp
    with that show ?thesis by (simp add: BlindIndexHash_Value_def)
  qed
  moreover from this have "BlindIndexHash_Value cs keys b \<noteq> ('''', None)" if "b \<noteq> ''''"
    using that by auto
  ultimately show ?thesis using e by simp
qed

theorem BlindIndexHash_Value_empty_witness:
  "''a'' \<noteq> '''' \<and> BlindIndexHash_Value demo_suite test_keys '''' = ('''', None) \<and>
   length (fst (BlindIndexHash_Value demo_suite test_keys ''a'')) = 88 \<and>
   BlindIndexHash_Value demo_suite test_keys ''a'' \<noteq>
     BlindIndexHash_Value demo_suite test_keys ''''"
proof -
  have "''a'' \<noteq> ''''" by simp
  with BlindIndexHash_Value_empty [of demo_suite test_keys "''a''"] show ?thesis
    by blast
qed

text \<open>\<open>GetHash\<close> on the empty input returns a digest of 64 bytes, and \<open>GetBase64\<close> its 88
  characters.\<close>

theorem GetHash_empty_counterexample:
  "length (fst (GetHash demo_suite test_keys '''')) = 64 \<and>
   snd (GetHash demo_suite test_keys '''') = None \<and>
   length (fst (GetBase64 demo_suite test_keys '''')) = 88"
  using GetBase64_length [of demo_suite test_keys "''''"]
  by (simp add: GetHash_def length_Sum_bytes)

section \<open>Scan\<close>

text \<open>
  C10. \<open>Scan\<close> never panics, and whenever it returns an error (the source is not a byte
  slice, or decryption fails) the receiver holds the string it held before: the receiver is
  assigned only when \<open>Scan\<close> returns no error.
\<close>

theorem Scan_atomic:
  "Scan cs keys e src \<noteq> Panics \<and>
   (\<forall>err e'. Scan cs keys e src = Returns (Some err, e') \<longrightarrow> e' = e)"
proof (cases src)
  case (SrcBytes v)
  show ?thesis
  proof (cases "v = []")
    case True
    with SrcBytes show ?thesis by (simp add: Scan_def)
  next
    case False
    with Decrypt_nonempty [OF False, of cs keys] SrcBytes show ?thesis
      by (cases "Decrypt cs keys v") (auto simp: Scan_def split: option.splits)
  qed
qed (simp_all add: Scan_def)

text \<open>A byte slice with an unsupported version byte, and a source that is a string.\<close>

theorem Scan_atomic_witness:
  "Scan demo_suite test_keys ''old'' (SrcBytes [1]) = Returns (Some ErrVersionMismatch, ''old'') \<and>
   Scan demo_suite test_keys ''old'' (SrcString ''text'') = Returns (Some ErrSrcNotBytes, ''old'')"
proof -
  have "Decrypt demo_suite test_keys [1] = Returns ('''', Some ErrVersionMismatch)"
    using Decrypt_version [OF valid_test_keys, of 1 demo_suite "[]"]
    by (simp add: encryptionVersion_def)
  then have "\<exists>err e'. Scan demo_suite test_keys ''old'' (SrcBytes [1]) = Returns (Some err, e')
      \<and> err = ErrVersionMismatch"
    by (simp add: Scan_def)
  with Scan_atomic [of demo_suite test_keys "''old''" "SrcBytes [1]"]
  have "Scan demo_suite test_keys ''old'' (SrcBytes [1]) = Returns (Some ErrVersionMismatch, ''old'')"
    by auto
  moreover have "\<exists>err e'. Scan demo_suite test_keys ''old'' (SrcString ''text'') = Returns (Some err, e')
      \<and> err = ErrSrcNotBytes"
    by (simp add: Scan_def)
  with Scan_atomic [of demo_suite test_keys "''old''" "SrcString ''text''"]
  have "Scan demo_suite test_keys ''old'' (SrcString ''text'') = Returns (Some ErrSrcNotBytes, ''old'')"
    by auto
  ultimately show ?thesis by simp
qed

end
